theory Spec2Isabelle
  imports Complex_Main "HOL-Library.Char_ord" "HOL-Library.List_Lexorder"
begin

section \<open>The CSV database seeder (src/database/populate.py)\<close>

text \<open>
  A shallow embedding of \<^verbatim>\<open>CSVDatabaseSeeder\<close> and of \<^verbatim>\<open>main\<close>. Python strings are
  character lists, dictionaries are maps, exceptions are the left summand of a sum type,
  and the database session is an explicit state that every statement threads through.
\<close>

subsection \<open>Strings\<close>

text \<open>
  Python's \<^verbatim>\<open>str.isspace\<close>, which is also what the regular expression \<^verbatim>\<open>\s\<close> and
  \<^verbatim>\<open>str.strip()\<close> use, on the code points below 256: tab, line feed, vertical tab,
  form feed, carriage return, the four separators 0x1C..0x1F, space, NEL and the
  non-breaking space.
\<close>

definition is_space :: "char \<Rightarrow> bool" where
  "is_space c = (c \<in> set [CHR 0x09, CHR 0x0A, CHR 0x0B, CHR 0x0C, CHR 0x0D,
      CHR 0x1C, CHR 0x1D, CHR 0x1E, CHR 0x1F, CHR 0x20, CHR 0x85, CHR 0xA0])"

text \<open>\<^verbatim>\<open>s.split(sep)\<close> for a one-character separator: n separators give n + 1 tokens.\<close>

fun str_split :: "char \<Rightarrow> string \<Rightarrow> string list" where
  "str_split sep [] = [[]]"
| "str_split sep (c # cs) =
     (if c = sep then [] # str_split sep cs
      else (case str_split sep cs of [] \<Rightarrow> [[c]] | t # ts \<Rightarrow> (c # t) # ts))"

text \<open>\<^verbatim>\<open>sep.join(tokens)\<close>.\<close>

fun str_join :: "string \<Rightarrow> string list \<Rightarrow> string" where
  "str_join sep [] = []"
| "str_join sep [t] = t"
| "str_join sep (t # u # ts) = t @ sep @ str_join sep (u # ts)"

text \<open>\<^verbatim>\<open>s.strip()\<close>: leading and trailing whitespace removed.\<close>

definition str_strip :: "string \<Rightarrow> string" where
  "str_strip s = rev (dropWhile is_space (rev (dropWhile is_space s)))"

text \<open>\<^verbatim>\<open>.str.replace(r'\s+', '', regex=True)\<close>: every run of whitespace is deleted.\<close>

definition remove_whitespace :: "string \<Rightarrow> string" where
  "remove_whitespace s = filter (\<lambda>c. \<not> is_space c) s"

text \<open>Line 60: every non-breaking space (code point U+00A0) is deleted.\<close>

definition remove_nbsp :: "string \<Rightarrow> string" where
  "remove_nbsp s = filter (\<lambda>c. c \<noteq> CHR 0xA0) s"

text \<open>
  \<^verbatim>\<open>sorted(set(tokens))\<close>: the distinct tokens in ascending order. Python compares
  strings lexicographically by code point, which is the order of \<open>List_Lexorder\<close> over
  \<open>Char_ord\<close>. The order in which a Python set is enumerated does not matter here,
  since the result is sorted.
\<close>

definition sorted_set :: "string list \<Rightarrow> string list" where
  "sorted_set ts = sort (remdups ts)"

subsection \<open>The data frame\<close>

text \<open>
  A cell of the frame that \<^verbatim>\<open>pd.read_csv\<close> returns is its text, or \<open>None\<close> for a missing
  value (NaN). The cleaned frame has the types the later stages rely on. Floating point
  numbers are represented by reals: the seeder only stores and defaults them.
\<close>

type_synonym date = "nat \<times> nat \<times> nat"

record csv_row =
  csv_names :: "string option"
  csv_date_x :: "string option"
  csv_score :: "string option"
  csv_genre :: "string option"
  csv_overview :: "string option"
  csv_crew :: "string option"
  csv_orig_lang :: "string option"
  csv_budget_x :: "string option"
  csv_revenue :: "string option"
  csv_country :: "string option"
  csv_status :: "string option"

record row =
  names :: "string option"
  date_x :: date
  score :: real
  genre :: string
  overview :: "string option"
  crew :: string
  orig_lang :: string
  budget_x :: real
  revenue :: real
  country :: string
  status :: string

text \<open>
  The two parsers of the pandas library are parameters of the model:
  \<^verbatim>\<open>pd.to_datetime(_, format='%Y-%m-%d', errors='coerce')\<close> and
  \<^verbatim>\<open>pd.to_numeric(_, errors='coerce')\<close> on one cell, with \<open>None\<close> for NaT and NaN.
\<close>

record pandas =
  to_datetime :: "string \<Rightarrow> date option"
  to_numeric :: "string \<Rightarrow> real option"

datatype console =
  Warning_invalid_dates nat
  | Preprocessing_csv_file
  | Csv_file_saved

text \<open>
  \<^verbatim>\<open>drop_duplicates(subset=..., keep='first')\<close>: a row is dropped when an earlier row has
  the same key; \<open>seen\<close> holds the keys met so far.
\<close>

fun drop_duplicates :: "('a \<Rightarrow> 'k) \<Rightarrow> 'k list \<Rightarrow> 'a list \<Rightarrow> 'a list" where
  "drop_duplicates f seen [] = []"
| "drop_duplicates f seen (x # xs) =
     (if f x \<in> set seen then drop_duplicates f seen xs
      else x # drop_duplicates f (f x # seen) xs)"

definition fillna :: "'a \<Rightarrow> 'a option \<Rightarrow> 'a" where
  "fillna d v = (case v of None \<Rightarrow> d | Some x \<Rightarrow> x)"

text \<open>Lines 55-59: the crew column, after \<^verbatim>\<open>fillna('Unknown')\<close>.\<close>

definition clean_crew :: "string \<Rightarrow> string" where
  "clean_crew s =
     (let x = remove_whitespace s
      in if x \<noteq> ''Unknown'' then str_join '','' (sorted_set (str_split CHR '','' x)) else x)"

text \<open>A missing cell stays missing under the parsers (NaN is coerced to NaT and to NaN).\<close>

definition parse_date :: "pandas \<Rightarrow> string option \<Rightarrow> date option" where
  "parse_date pd v = (case v of None \<Rightarrow> None | Some x \<Rightarrow> to_datetime pd x)"

definition parse_number :: "pandas \<Rightarrow> string option \<Rightarrow> real" where
  "parse_number pd v = fillna 0 (case v of None \<Rightarrow> None | Some x \<Rightarrow> to_numeric pd x)"

text \<open>One row of the cleaned frame, from a row whose date parsed as \<open>d\<close>.\<close>

definition clean_row :: "pandas \<Rightarrow> csv_row \<Rightarrow> date \<Rightarrow> row" where
  "clean_row pd r d =
     \<lparr> names = csv_names r,
       date_x = d,
       score = parse_number pd (csv_score r),
       genre = remove_nbsp (fillna ''Unknown'' (csv_genre r)),
       overview = csv_overview r,
       crew = clean_crew (fillna ''Unknown'' (csv_crew r)),
       orig_lang = remove_whitespace (fillna ''Unknown'' (csv_orig_lang r)),
       budget_x = parse_number pd (csv_budget_x r),
       revenue = parse_number pd (csv_revenue r),
       country = fillna ''Unknown'' (csv_country r),
       status = str_strip (fillna ''Unknown'' (csv_status r)) \<rparr>"

text \<open>\<^verbatim>\<open>data.dropna(subset=['date_x'])\<close> on the rows paired with their parsed dates.\<close>

fun dropna :: "('a \<times> 'b option) list \<Rightarrow> ('a \<times> 'b) list" where
  "dropna [] = []"
| "dropna ((r, None) # xs) = dropna xs"
| "dropna ((r, Some d) # xs) = (r, d) # dropna xs"

text \<open>
  \<^verbatim>\<open>_preprocess_csv\<close>: the lines printed and the cleaned frame. Rewriting the CSV file
  in place is outside the model.
\<close>

definition preprocess_csv :: "pandas \<Rightarrow> csv_row list \<Rightarrow> console list \<times> row list" where
  "preprocess_csv pd csv =
     (let data = drop_duplicates (\<lambda>r. (csv_names r, csv_date_x r)) [] csv;
          dated = map (\<lambda>r. (r, parse_date pd (csv_date_x r))) data;
          invalid_dates = length (filter (\<lambda>(r, d). d = None) dated);
          warning = (if invalid_dates > 0 then [Warning_invalid_dates invalid_dates] else [])
      in (warning @ [Preprocessing_csv_file, Csv_file_saved],
          map (\<lambda>(r, d). clean_row pd r d) (dropna dated)))"

subsection \<open>The database and the session\<close>

datatype error =
  SQLAlchemyError
  | NoResultFound
  | MultipleResultsFound
  | KeyError string
  | IndexError

datatype model = CountryModel | GenreModel | ActorModel | LanguageModel

datatype assoc = MoviesGenresModel | ActorsMoviesModel | MoviesLanguagesModel

text \<open>
  A reference entity is its generated identifier and its natural key (\<^verbatim>\<open>code\<close> of a
  country, \<^verbatim>\<open>name\<close> of a genre, an actor or a language); the model kind decides the
  key field, so \<^verbatim>\<open>unique_field\<close> is not a separate argument.
\<close>

type_synonym obj = "nat \<times> string"

record movie =
  movie_name :: "string option"
  movie_date :: date
  movie_score :: real
  movie_overview :: "string option"
  movie_status :: string
  movie_budget :: real
  movie_revenue :: real
  country_id :: nat

record db =
  user_groups :: "(nat \<times> string) list"
  refs :: "model \<Rightarrow> obj list"
  movies :: "(nat \<times> movie) list"
  links :: "assoc \<Rightarrow> (nat \<times> nat) list"

text \<open>
  The session: the committed store, the working copy of the open transaction (if any),
  and two bookkeeping fields. \<open>faults\<close> is the schedule of data-layer errors: each
  statement sent to the database consumes its head, and fails when the head is \<open>True\<close>
  (an empty schedule means no further failure). \<open>writes\<close> counts the insert statements
  issued.
\<close>

record session =
  committed :: db
  txn :: "db option"
  faults :: "bool list"
  writes :: nat

type_synonym 'a io = "session \<Rightarrow> (error + 'a) \<times> session"

definition return_io :: "'a \<Rightarrow> 'a io" where
  "return_io x s = (Inr x, s)"

definition raise_or_return :: "error + 'a \<Rightarrow> 'a io" where
  "raise_or_return r s = (r, s)"

text \<open>Sequencing: an exception of the first step skips the rest and keeps the state.\<close>

definition bind_io :: "'a io \<Rightarrow> ('a \<Rightarrow> 'b io) \<Rightarrow> 'b io" where
  "bind_io f g s = (case f s of (Inl e, s') \<Rightarrow> (Inl e, s') | (Inr x, s') \<Rightarrow> g x s')"

text \<open>What a statement of this session sees: the working copy, else the store.\<close>

definition view :: "session \<Rightarrow> db" where
  "view s = (case txn s of None \<Rightarrow> committed s | Some w \<Rightarrow> w)"

definition next_fails :: "session \<Rightarrow> bool" where
  "next_fails s = (case faults s of [] \<Rightarrow> False | b # _ \<Rightarrow> b)"

definition in_transaction :: "session \<Rightarrow> bool" where
  "in_transaction s = (txn s \<noteq> None)"

definition rollback :: "session \<Rightarrow> session" where
  "rollback s = s\<lparr>txn := None\<rparr>"

text \<open>
  Leaving \<^verbatim>\<open>async with AsyncSQLiteSessionLocal() as session\<close> closes the session, which
  discards a transaction that was not committed.
\<close>

definition close :: "session \<Rightarrow> session" where
  "close s = s\<lparr>txn := None\<rparr>"

text \<open>
  \<^verbatim>\<open>session.execute\<close> of a select and of an insert. Either begins a transaction when
  none is open. A failing statement changes no row.
\<close>

definition execute_select :: "(db \<Rightarrow> 'a) \<Rightarrow> 'a io" where
  "execute_select q s =
     (if next_fails s
      then (Inl SQLAlchemyError, s\<lparr>txn := Some (view s), faults := tl (faults s)\<rparr>)
      else (Inr (q (view s)), s\<lparr>txn := Some (view s), faults := tl (faults s)\<rparr>))"

definition execute_insert :: "(db \<Rightarrow> db) \<Rightarrow> unit io" where
  "execute_insert ins s =
     (if next_fails s
      then (Inl SQLAlchemyError,
            s\<lparr>txn := Some (view s), faults := tl (faults s), writes := Suc (writes s)\<rparr>)
      else (Inr (),
            s\<lparr>txn := Some (ins (view s)), faults := tl (faults s), writes := Suc (writes s)\<rparr>))"

text \<open>
  Every row of the run is written by a Core insert statement, so no ORM object is ever
  pending and \<^verbatim>\<open>flush\<close> sends nothing.
\<close>

definition flush :: "unit io" where
  "flush = return_io ()"

definition commit :: "unit io" where
  "commit s =
     (if next_fails s then (Inl SQLAlchemyError, s\<lparr>faults := tl (faults s)\<rparr>)
      else (Inr (), s\<lparr>committed := view s, txn := None, faults := tl (faults s)\<rparr>))"

text \<open>Generated identifiers: one more than the largest identifier of the table.\<close>

definition next_id :: "(nat \<times> 'a) list \<Rightarrow> nat" where
  "next_id t = Suc (fold max (map fst t) 0)"

definition insert_values :: "'a list \<Rightarrow> (nat \<times> 'a) list \<Rightarrow> (nat \<times> 'a) list" where
  "insert_values vs t = t @ zip [next_id t ..< next_id t + length vs] vs"

definition insert_refs :: "model \<Rightarrow> string list \<Rightarrow> db \<Rightarrow> db" where
  "insert_refs m ks d = d\<lparr>refs := (refs d)(m := insert_values ks (refs d m))\<rparr>"

definition insert_movie_rows :: "movie list \<Rightarrow> db \<Rightarrow> db" where
  "insert_movie_rows ms d = d\<lparr>movies := insert_values ms (movies d)\<rparr>"

definition insert_links :: "assoc \<Rightarrow> (nat \<times> nat) list \<Rightarrow> db \<Rightarrow> db" where
  "insert_links t ps d = d\<lparr>links := (links d)(t := links d t @ ps)\<rparr>"

definition insert_user_groups :: "string list \<Rightarrow> db \<Rightarrow> db" where
  "insert_user_groups gs d = d\<lparr>user_groups := insert_values gs (user_groups d)\<rparr>"

text \<open>\<^verbatim>\<open>result.scalar_one()\<close>: exactly one row, or an exception.\<close>

fun scalar_one :: "'a list \<Rightarrow> error + 'a" where
  "scalar_one [] = Inl NoResultFound"
| "scalar_one [x] = Inr x"
| "scalar_one (x # y # zs) = Inl MultipleResultsFound"

subsection \<open>Batches\<close>

definition CHUNK_SIZE :: nat where
  "CHUNK_SIZE = 1000"

text \<open>
  The slices \<^verbatim>\<open>xs[i:i + n]\<close> for \<^verbatim>\<open>i in range(0, len(xs), n)\<close>. The step is the constant
  \<open>CHUNK_SIZE\<close>, never 0.
\<close>

function chunks :: "nat \<Rightarrow> 'a list \<Rightarrow> 'a list list" where
  "chunks n xs = (if n = 0 \<or> xs = [] then [] else take n xs # chunks n (drop n xs))"
  by pat_completeness auto
termination
  by (relation "measure (\<lambda>(n, xs). length xs)") auto

declare chunks.simps [simp del]

subsection \<open>The seeder\<close>

text \<open>\<^verbatim>\<open>is_db_populated\<close>: \<^verbatim>\<open>select(MovieModel).limit(1)\<close> returns a row.\<close>

definition is_db_populated :: "bool io" where
  "is_db_populated =
     bind_io (execute_select (\<lambda>d. take 1 (movies d))) (\<lambda>result. return_io (result \<noteq> []))"

text \<open>
  \<^verbatim>\<open>_seed_user_groups\<close>. The role names of \<^verbatim>\<open>UserGroupEnum\<close> are declared outside the
  files at hand and are a parameter.
\<close>

definition seed_user_groups :: "string list \<Rightarrow> unit io" where
  "seed_user_groups UserGroupEnum =
     bind_io (execute_select (\<lambda>d. length (user_groups d)))
       (\<lambda>existing_groups.
          if existing_groups = 0
          then bind_io (execute_insert (insert_user_groups UserGroupEnum)) (\<lambda>_. flush)
          else return_io ())"

text \<open>
  The two select loops of \<^verbatim>\<open>_get_or_create_bulk\<close> (lines 93-99 and 111-117) have the
  same body: every row whose key is in the batch is stored in the dictionary under its
  key, a later row replacing an earlier one.
\<close>

fun select_existing :: "model \<Rightarrow> string list list \<Rightarrow> (string \<rightharpoonup> obj) \<Rightarrow> (string \<rightharpoonup> obj) io" where
  "select_existing m [] existing_dict = return_io existing_dict"
| "select_existing m (chunk # rest) existing_dict =
     bind_io (execute_select (\<lambda>d. filter (\<lambda>obj. snd obj \<in> set chunk) (refs d m)))
       (\<lambda>result.
          select_existing m rest (fold (\<lambda>obj dict. dict(snd obj \<mapsto> obj)) result existing_dict))"

fun insert_new_records :: "model \<Rightarrow> string list list \<Rightarrow> unit io" where
  "insert_new_records m [] = return_io ()"
| "insert_new_records m (chunk # rest) =
     bind_io (execute_insert (insert_refs m chunk))
       (\<lambda>_. bind_io flush (\<lambda>_. insert_new_records m rest))"

definition get_or_create_bulk :: "model \<Rightarrow> string list \<Rightarrow> (string \<rightharpoonup> obj) io" where
  "get_or_create_bulk m items =
     bind_io
       (if items \<noteq> [] then select_existing m (chunks CHUNK_SIZE items) Map.empty
        else return_io Map.empty)
       (\<lambda>existing_dict.
          let new_items = filter (\<lambda>item. existing_dict item = None) items
          in if new_items \<noteq> []
             then bind_io (insert_new_records m (chunks CHUNK_SIZE new_items))
                    (\<lambda>_. select_existing m (chunks CHUNK_SIZE new_items) existing_dict)
             else return_io existing_dict)"

text \<open>
  \<^verbatim>\<open>_bulk_insert\<close>: \<^verbatim>\<open>math.ceil(total_records / CHUNK_SIZE)\<close> batches, an empty slice
  being skipped, and one flush at the end.
\<close>

fun bulk_insert_chunks :: "assoc \<Rightarrow> (nat \<times> nat) list \<Rightarrow> nat list \<Rightarrow> unit io" where
  "bulk_insert_chunks table data_list [] = return_io ()"
| "bulk_insert_chunks table data_list (chunk_index # rest) =
     (let start = chunk_index * CHUNK_SIZE;
          stop = start + CHUNK_SIZE;
          chunk = take (stop - start) (drop start data_list)
      in if chunk \<noteq> []
         then bind_io (execute_insert (insert_links table chunk))
                (\<lambda>_. bulk_insert_chunks table data_list rest)
         else bulk_insert_chunks table data_list rest)"

definition bulk_insert :: "assoc \<Rightarrow> (nat \<times> nat) list \<Rightarrow> unit io" where
  "bulk_insert table data_list =
     (let total_records = length data_list
      in if total_records = 0 then return_io ()
         else let num_chunks = (total_records + CHUNK_SIZE - 1) div CHUNK_SIZE
              in bind_io (bulk_insert_chunks table data_list [0..<num_chunks]) (\<lambda>_. flush))"

text \<open>
  \<^verbatim>\<open>_prepare_reference_data\<close>. \<^verbatim>\<open>unique()\<close> lists the countries in order of first
  appearance. The three sets are listed by \<^verbatim>\<open>list(...)\<close> in an order Python does not
  fix; the model takes one of them.
\<close>

definition prepare_reference_data ::
  "row list \<Rightarrow> ((string \<rightharpoonup> obj) \<times> (string \<rightharpoonup> obj) \<times> (string \<rightharpoonup> obj) \<times> (string \<rightharpoonup> obj)) io" where
  "prepare_reference_data data =
     (let countries = drop_duplicates id [] (map country data);
          genres = remdups [str_strip genre_name. g \<leftarrow> map genre data,
                      genre_name \<leftarrow> str_split CHR '','' g, str_strip genre_name \<noteq> []];
          actors = remdups [str_strip actor_name. c \<leftarrow> map crew data,
                      actor_name \<leftarrow> str_split CHR '','' c, str_strip actor_name \<noteq> []];
          languages = remdups [str_strip lang_name. l \<leftarrow> map orig_lang data,
                      lang_name \<leftarrow> str_split CHR '','' l, str_strip lang_name \<noteq> []]
      in bind_io (get_or_create_bulk CountryModel countries) (\<lambda>country_map.
         bind_io (get_or_create_bulk GenreModel genres) (\<lambda>genre_map.
         bind_io (get_or_create_bulk ActorModel actors) (\<lambda>actor_map.
         bind_io (get_or_create_bulk LanguageModel languages) (\<lambda>language_map.
         return_io (country_map, genre_map, actor_map, language_map))))))"

text \<open>\<^verbatim>\<open>_prepare_movies_data\<close>: \<^verbatim>\<open>country_map[row['country']]\<close> raises on a missing key.\<close>

definition movie_of :: "row \<Rightarrow> obj \<Rightarrow> movie" where
  "movie_of row country_obj =
     \<lparr> movie_name = names row,
       movie_date = date_x row,
       movie_score = score row,
       movie_overview = overview row,
       movie_status = status row,
       movie_budget = budget_x row,
       movie_revenue = revenue row,
       country_id = fst country_obj \<rparr>"

fun prepare_movies_data :: "row list \<Rightarrow> (string \<rightharpoonup> obj) \<Rightarrow> error + movie list" where
  "prepare_movies_data [] country_map = Inr []"
| "prepare_movies_data (row # rest) country_map =
     (case country_map (country row) of
        None \<Rightarrow> Inl (KeyError (country row))
      | Some country_obj \<Rightarrow>
          (case prepare_movies_data rest country_map of
             Inl e \<Rightarrow> Inl e
           | Inr movies_data \<Rightarrow> Inr (movie_of row country_obj # movies_data)))"

text \<open>
  \<^verbatim>\<open>_prepare_associations\<close>. The inner loops (lines 177-190) share one body: strip the
  token, skip it when empty, look it up and append a pair.
\<close>

fun associate :: "(string \<rightharpoonup> obj) \<Rightarrow> nat \<Rightarrow> string list \<Rightarrow> (nat \<times> nat) list
    \<Rightarrow> error + (nat \<times> nat) list" where
  "associate ref_map movie_id [] acc = Inr acc"
| "associate ref_map movie_id (token # rest) acc =
     (let ref_name = str_strip token
      in if ref_name \<noteq> []
         then (case ref_map ref_name of
                 None \<Rightarrow> Inl (KeyError ref_name)
               | Some ref \<Rightarrow> associate ref_map movie_id rest (acc @ [(movie_id, fst ref)]))
         else associate ref_map movie_id rest acc)"

fun prepare_associations_from ::
  "nat \<Rightarrow> row list \<Rightarrow> nat list \<Rightarrow> (string \<rightharpoonup> obj) \<Rightarrow> (string \<rightharpoonup> obj) \<Rightarrow> (string \<rightharpoonup> obj)
    \<Rightarrow> (nat \<times> nat) list \<times> (nat \<times> nat) list \<times> (nat \<times> nat) list
    \<Rightarrow> error + (nat \<times> nat) list \<times> (nat \<times> nat) list \<times> (nat \<times> nat) list" where
  "prepare_associations_from i [] movie_ids genre_map actor_map language_map acc = Inr acc"
| "prepare_associations_from i (row # rest) movie_ids genre_map actor_map language_map
       (movie_genres_data, movie_actors_data, movie_languages_data) =
     (if i < length movie_ids
      then (let movie_id = movie_ids ! i
            in case associate genre_map movie_id (str_split CHR '','' (genre row))
                      movie_genres_data of
                 Inl e \<Rightarrow> Inl e
               | Inr gs \<Rightarrow>
                   (case associate actor_map movie_id (str_split CHR '','' (crew row))
                           movie_actors_data of
                      Inl e \<Rightarrow> Inl e
                    | Inr acs \<Rightarrow>
                        (case associate language_map movie_id
                                (str_split CHR '','' (orig_lang row)) movie_languages_data of
                           Inl e \<Rightarrow> Inl e
                         | Inr ls \<Rightarrow>
                             prepare_associations_from (Suc i) rest movie_ids genre_map
                               actor_map language_map (gs, acs, ls))))
      else Inl IndexError)"

definition prepare_associations ::
  "row list \<Rightarrow> nat list \<Rightarrow> (string \<rightharpoonup> obj) \<Rightarrow> (string \<rightharpoonup> obj) \<Rightarrow> (string \<rightharpoonup> obj)
    \<Rightarrow> error + (nat \<times> nat) list \<times> (nat \<times> nat) list \<times> (nat \<times> nat) list" where
  "prepare_associations data movie_ids genre_map actor_map language_map =
     prepare_associations_from 0 data movie_ids genre_map actor_map language_map ([], [], [])"

text \<open>
  Lines 208-222 of \<^verbatim>\<open>seed\<close>: each batch is inserted, then the identifier of each of its
  movies is selected by name and date. A missing name is NaN, which equals no stored
  name.
\<close>

definition same_name_and_date :: "movie \<Rightarrow> movie \<Rightarrow> bool" where
  "same_name_and_date movie stored =
     ((case movie_name movie of None \<Rightarrow> False | Some n \<Rightarrow> movie_name stored = Some n)
      \<and> movie_date stored = movie_date movie)"

fun fetch_movie_ids :: "movie list \<Rightarrow> nat list \<Rightarrow> nat list io" where
  "fetch_movie_ids [] movie_ids = return_io movie_ids"
| "fetch_movie_ids (movie # rest) movie_ids =
     bind_io (execute_select
                (\<lambda>d. map fst (filter (\<lambda>stored. same_name_and_date movie (snd stored)) (movies d))))
       (\<lambda>result. bind_io (raise_or_return (scalar_one result))
          (\<lambda>movie_id. fetch_movie_ids rest (movie_ids @ [movie_id])))"

fun insert_movies :: "movie list list \<Rightarrow> nat list \<Rightarrow> nat list io" where
  "insert_movies [] movie_ids = return_io movie_ids"
| "insert_movies (chunk # rest) movie_ids =
     bind_io (execute_insert (insert_movie_rows chunk))
       (\<lambda>_. bind_io flush
          (\<lambda>_. bind_io (fetch_movie_ids chunk movie_ids)
             (\<lambda>movie_ids'. insert_movies rest movie_ids')))"

text \<open>
  \<^verbatim>\<open>seed\<close>. Both handlers print and re-raise, so an exception of any stage is the
  result of \<open>seed\<close>, with the session as the failing stage left it.
\<close>

definition seed :: "pandas \<Rightarrow> string list \<Rightarrow> csv_row list \<Rightarrow> unit io" where
  "seed pd UserGroupEnum csv s =
     (bind_io (seed_user_groups UserGroupEnum) (\<lambda>_.
        let data = snd (preprocess_csv pd csv)
        in bind_io (prepare_reference_data data)
          (\<lambda>(country_map, genre_map, actor_map, language_map).
        bind_io (raise_or_return (prepare_movies_data data country_map)) (\<lambda>movies_data.
        bind_io (insert_movies (chunks CHUNK_SIZE movies_data) []) (\<lambda>movie_ids.
        bind_io (raise_or_return
                   (prepare_associations data movie_ids genre_map actor_map language_map))
          (\<lambda>(movie_genres_data, movie_actors_data, movie_languages_data).
        bind_io (bulk_insert MoviesGenresModel movie_genres_data) (\<lambda>_.
        bind_io (bulk_insert ActorsMoviesModel movie_actors_data) (\<lambda>_.
        bind_io (bulk_insert MoviesLanguagesModel movie_languages_data) (\<lambda>_.
        commit)))))))))
       (if in_transaction s then rollback s else s)"

text \<open>A session just opened on a store, with the schedule of the failures to come.\<close>

definition new_session :: "db \<Rightarrow> bool list \<Rightarrow> session" where
  "new_session store fs = \<lparr> committed = store, txn = None, faults = fs, writes = 0 \<rparr>"

text \<open>
  \<^verbatim>\<open>main\<close> opens a session on the store, seeds unless a movie exists, swallows an
  exception of \<open>seed\<close> after printing it, and closes the session.
\<close>

definition main :: "pandas \<Rightarrow> string list \<Rightarrow> csv_row list \<Rightarrow> db \<Rightarrow> bool list
    \<Rightarrow> (error + unit) \<times> session" where
  "main pd UserGroupEnum csv store fs =
     (let db_session = new_session store fs
      in case is_db_populated db_session of
           (Inl e, s) \<Rightarrow> (Inl e, close s)
         | (Inr populated, s) \<Rightarrow>
             if \<not> populated
             then (case seed pd UserGroupEnum csv s of (r, s') \<Rightarrow> (Inr (), close s'))
             else (Inr (), close s))"

subsection \<open>A concrete run\<close>

text \<open>
  The inputs of the concrete runs below. The parsers accept the strict shapes only: four,
  two and two digits for a calendar date, and an unsigned decimal integer for a number.
  The theorems hold for every pair of parsers.
\<close>

fun decimal :: "nat \<Rightarrow> string \<Rightarrow> nat option" where
  "decimal acc [] = Some acc"
| "decimal acc (c # cs) =
     (if c \<in> set ''0123456789'' then decimal (10 * acc + (of_char c - 48)) cs else None)"

definition days_in_month :: "nat \<Rightarrow> nat \<Rightarrow> nat" where
  "days_in_month y m =
     (if m = 2 then (if y mod 4 = 0 \<and> (y mod 100 \<noteq> 0 \<or> y mod 400 = 0) then 29 else 28)
      else if m \<in> set [4, 6, 9, 11] then 30 else 31)"

definition strict_ymd :: "string \<Rightarrow> date option" where
  "strict_ymd s =
     (case str_split CHR ''-'' s of
        [y, m, d] \<Rightarrow>
          (if length y = 4 \<and> length m = 2 \<and> length d = 2
           then (case (decimal 0 y, decimal 0 m, decimal 0 d) of
                   (Some yy, Some mm, Some dd) \<Rightarrow>
                     if 1 \<le> mm \<and> mm \<le> 12 \<and> 1 \<le> dd \<and> dd \<le> days_in_month yy mm
                     then Some (yy, mm, dd) else None
                 | _ \<Rightarrow> None)
           else None)
      | _ \<Rightarrow> None)"

definition strict_number :: "string \<Rightarrow> real option" where
  "strict_number s = (if s = [] then None else map_option real (decimal 0 s))"

definition example_pandas :: pandas where
  "example_pandas = \<lparr> to_datetime = strict_ymd, to_numeric = strict_number \<rparr>"

definition heat_row :: csv_row where
  "heat_row =
     \<lparr> csv_names = Some ''Heat'', csv_date_x = Some ''1995-12-15'', csv_score = Some ''83'',
       csv_genre = Some ''Action,'', csv_overview = Some ''A heist.'',
       csv_crew = Some ''b, a, a'', csv_orig_lang = Some '' English'',
       csv_budget_x = Some ''N/A'', csv_revenue = None, csv_country = None,
       csv_status = Some '' Released '' \<rparr>"

definition bad_date_row :: csv_row where
  "bad_date_row =
     \<lparr> csv_names = Some ''Nowhere'', csv_date_x = Some ''2024-13-40'', csv_score = None,
       csv_genre = None, csv_overview = None, csv_crew = None, csv_orig_lang = None,
       csv_budget_x = None, csv_revenue = None, csv_country = None, csv_status = None \<rparr>"

definition smith_row :: csv_row where
  "smith_row =
     \<lparr> csv_names = Some ''Ronin'', csv_date_x = Some ''1998-09-25'', csv_score = Some ''72'',
       csv_genre = Some ''Action, Crime'', csv_overview = None,
       csv_crew = Some ''John Smith, Al'', csv_orig_lang = Some ''English, French'',
       csv_budget_x = Some ''55'', csv_revenue = Some ''70'', csv_country = Some ''US'',
       csv_status = Some ''Released'' \<rparr>"

definition example_csv :: "csv_row list" where
  "example_csv = [heat_row, bad_date_row, smith_row, heat_row]"

definition empty_store :: db where
  "empty_store = \<lparr> user_groups = [], refs = (\<lambda>_. []), movies = [], links = (\<lambda>_. []) \<rparr>"

definition heat_movie :: movie where
  "heat_movie =
     \<lparr> movie_name = Some ''Heat'', movie_date = (1995, 12, 15), movie_score = 83,
       movie_overview = Some ''A heist.'', movie_status = ''Released'', movie_budget = 0,
       movie_revenue = 0, country_id = 1 \<rparr>"

definition populated_store :: db where
  "populated_store = empty_store\<lparr>movies := [(1, heat_movie)]\<rparr>"

definition example_data :: "row list" where
  "example_data = snd (preprocess_csv example_pandas example_csv)"

definition example_genre_map :: "string \<rightharpoonup> obj" where
  "example_genre_map = map_of [(''Action'', (1, ''Action'')), (''Crime'', (2, ''Crime''))]"

definition example_actor_map :: "string \<rightharpoonup> obj" where
  "example_actor_map = map_of [(''a'', (1, ''a'')), (''b'', (2, ''b'')), (''Al'', (3, ''Al'')),
     (''JohnSmith'', (4, ''JohnSmith''))]"

definition example_language_map :: "string \<rightharpoonup> obj" where
  "example_language_map = map_of [(''English'', (1, ''English'')), (''French'', (2, ''French''))]"

definition example_country_map :: "string \<rightharpoonup> obj" where
  "example_country_map = map_of [(''Unknown'', (1, ''Unknown'')), (''US'', (2, ''US''))]"

subsection \<open>Notions used in the statements\<close>

text \<open>
  The row a natural key resolves to in a table: the last row with that key, which is
  the one the select loops of \<^verbatim>\<open>_get_or_create_bulk\<close> leave in the dictionary.
\<close>

definition row_by_key :: "obj list \<Rightarrow> string \<rightharpoonup> obj" where
  "row_by_key t = map_of (rev (map (\<lambda>obj. (snd obj, obj)) t))"

text \<open>
  The tokens of a multi-value field as the specification describes them: split on
  commas, trimmed, the empty ones discarded.
\<close>

definition tokens :: "string \<Rightarrow> string list" where
  "tokens s = filter (\<lambda>t. t \<noteq> []) (map str_strip (str_split CHR '','' s))"

section \<open>Properties of the preprocessor\<close>

subsection \<open>Splitting and joining\<close>

lemma str_split_not_Nil: "str_split sep s \<noteq> []"
  by (induction s) (auto split: list.splits)

lemma str_split_filter:
  "P sep \<Longrightarrow> str_split sep (filter P s) = map (filter P) (str_split sep s)"
proof (induction s)
  case Nil
  then show ?case by simp
next
  case (Cons c cs)
  then show ?case
    using str_split_not_Nil [of sep cs]
    by (cases "str_split sep cs") (auto split: list.splits)
qed

lemma is_space_comma: "\<not> is_space CHR '',''"
  by (simp add: is_space_def)

lemma str_split_remove_whitespace:
  "str_split CHR '','' (remove_whitespace s) = map remove_whitespace (str_split CHR '','' s)"
  unfolding remove_whitespace_def
  using str_split_filter [of "\<lambda>c. \<not> is_space c" "CHR '',''" s] is_space_comma
  by (simp add: remove_whitespace_def [abs_def])

lemma str_split_no_sep: "t \<in> set (str_split sep s) \<Longrightarrow> sep \<notin> set t"
proof (induction s arbitrary: t)
  case Nil
  then show ?case by simp
next
  case (Cons c cs)
  then show ?case
    using str_split_not_Nil [of sep cs]
    by (cases "str_split sep cs") (auto split: if_splits)
qed

lemma str_split_single: "sep \<notin> set t \<Longrightarrow> str_split sep t = [t]"
  by (induction t) auto

lemma str_split_append:
  "sep \<notin> set t \<Longrightarrow> str_split sep (t @ sep # rest) = t # str_split sep rest"
  by (induction t) auto

lemma str_split_join:
  "ts \<noteq> [] \<Longrightarrow> \<forall>t\<in>set ts. sep \<notin> set t \<Longrightarrow> str_split sep (str_join [sep] ts) = ts"
proof (induction "[sep]" ts rule: str_join.induct)
  case 1
  then show ?case by simp
next
  case (2 t)
  then show ?case by (simp add: str_split_single)
next
  case (3 t u ts)
  then show ?case by (simp add: str_split_append)
qed

lemma set_sorted_set: "set (sorted_set ts) = set ts"
  by (simp add: sorted_set_def)

lemma sorted_set_not_Nil: "ts \<noteq> [] \<Longrightarrow> sorted_set ts \<noteq> []"
  using set_sorted_set [of ts] by (metis set_empty)

lemma clean_crew_eq:
  "clean_crew x = str_join '','' (sorted_set (map remove_whitespace (str_split CHR '','' x)))"
proof (cases "remove_whitespace x = ''Unknown''")
  case True
  have "map remove_whitespace (str_split CHR '','' x) = [''Unknown'']"
    using str_split_remove_whitespace [of x] True by simp
  then show ?thesis
    using True by (simp add: clean_crew_def sorted_set_def)
next
  case False
  then show ?thesis
    by (simp add: clean_crew_def str_split_remove_whitespace)
qed

lemma clean_crew_tokens:
  "str_split CHR '','' (clean_crew x)
     = sorted_set (map remove_whitespace (str_split CHR '','' x))"
proof -
  let ?ts = "sorted_set (map remove_whitespace (str_split CHR '','' x))"
  have ne: "?ts \<noteq> []"
    by (rule sorted_set_not_Nil) (simp add: str_split_not_Nil)
  have "\<forall>t\<in>set ?ts. CHR '','' \<notin> set t"
    using str_split_no_sep [of _ "CHR '',''" "remove_whitespace x"]
    by (simp add: set_sorted_set str_split_remove_whitespace [symmetric])
  with ne show ?thesis
    by (simp add: clean_crew_eq str_split_join)
qed

lemma str_split_subset: "t \<in> set (str_split sep s) \<Longrightarrow> set t \<subseteq> set s"
proof (induction s arbitrary: t)
  case Nil
  then show ?case by simp
next
  case (Cons c cs)
  obtain a list where split: "str_split sep cs = a # list"
    using str_split_not_Nil [of sep cs] by (cases "str_split sep cs") auto
  have a: "set a \<subseteq> set cs" and rest: "\<And>u. u \<in> set list \<Longrightarrow> set u \<subseteq> set cs"
    using Cons.IH split by auto
  from Cons.prems split consider "t = []" | "t = a" | "t \<in> set list" | "t = c # a"
    by (auto split: if_splits)
  then show ?case
    using a rest by cases auto
qed

lemma set_str_join: "set (str_join sep ts) \<subseteq> set sep \<union> \<Union> (set ` set ts)"
  by (induction sep ts rule: str_join.induct) auto

lemma remove_whitespace_no_space: "c \<in> set (remove_whitespace s) \<Longrightarrow> \<not> is_space c"
  by (simp add: remove_whitespace_def)

lemma clean_crew_no_space: "c \<in> set (clean_crew x) \<Longrightarrow> \<not> is_space c"
proof (cases "remove_whitespace x = ''Unknown''")
  case True
  assume "c \<in> set (clean_crew x)"
  with True have "c \<in> set (remove_whitespace x)"
    by (simp add: clean_crew_def)
  then show ?thesis by (rule remove_whitespace_no_space)
next
  case False
  assume "c \<in> set (clean_crew x)"
  with False have "c \<in> set (str_join '','' (sorted_set (str_split CHR '','' (remove_whitespace x))))"
    by (simp add: clean_crew_def)
  then have "c = CHR '','' \<or> (\<exists>t\<in>set (str_split CHR '','' (remove_whitespace x)). c \<in> set t)"
    using set_str_join [of "'',''" "sorted_set (str_split CHR '','' (remove_whitespace x))"]
    by (auto simp: set_sorted_set)
  then show ?thesis
    using str_split_subset [of _ "CHR '',''" "remove_whitespace x"]
      remove_whitespace_no_space [of c x] is_space_comma
    by auto
qed

subsection \<open>The crew column\<close>

text \<open>
  Claim C6. For a crew value other than "Unknown", the cleaned crew is the comma-join of
  the sorted, duplicate-free list of its comma-separated tokens, each with its
  whitespace removed. On "b, a, a" this is "a,b".
\<close>

theorem crew_canonical_form:
  assumes "csv_crew r = Some x" and "x \<noteq> ''Unknown''"
  shows "crew (clean_row pd r d)
     = str_join '','' (sorted_set (map remove_whitespace (str_split CHR '','' x)))"
  using assms by (simp add: clean_row_def fillna_def clean_crew_eq)

theorem crew_canonical_form_witness:
  "csv_crew heat_row = Some ''b, a, a'' \<and> ''b, a, a'' \<noteq> ''Unknown''
    \<and> crew (clean_row example_pandas heat_row (1995, 12, 15)) = ''a,b''"
proof -
  have h1: "csv_crew heat_row = Some ''b, a, a''"
    by (simp add: heat_row_def)
  have h2: "''b, a, a'' \<noteq> ''Unknown''"
    by simp
  have v: "str_join '','' (sorted_set (map remove_whitespace (str_split CHR '','' ''b, a, a'')))
      = ''a,b''"
    by code_simp
  show ?thesis
    using crew_canonical_form [OF h1 h2, of example_pandas "(1995, 12, 15)"] h1 v by simp
qed

text \<open>
  Claim C9. Whitespace is removed from the whole crew string before it is split, so the
  tokens of the cleaned crew are the tokens of the input with every whitespace character
  deleted, also inside a name, and the cleaned crew contains no whitespace at all.
  "John Smith, Al" gives the tokens "Al" and "JohnSmith".
\<close>

theorem crew_whitespace_removed:
  assumes "csv_crew r = Some x"
  shows "str_split CHR '','' (crew (clean_row pd r d))
           = sorted_set (map remove_whitespace (str_split CHR '','' x))
         \<and> (\<forall>c\<in>set (crew (clean_row pd r d)). \<not> is_space c)"
  using assms clean_crew_no_space [of _ x]
  by (simp add: clean_row_def fillna_def clean_crew_tokens)

theorem crew_whitespace_removed_witness:
  "csv_crew smith_row = Some ''John Smith, Al''
    \<and> str_split CHR '','' (crew (clean_row example_pandas smith_row (1998, 9, 25)))
        = [''Al'', ''JohnSmith'']"
proof -
  have h: "csv_crew smith_row = Some ''John Smith, Al''"
    by (simp add: smith_row_def)
  have v: "sorted_set (map remove_whitespace (str_split CHR '','' ''John Smith, Al''))
      = [''Al'', ''JohnSmith'']"
    by code_simp
  show ?thesis
    using crew_whitespace_removed [OF h, of example_pandas "(1998, 9, 25)"] h v by simp
qed

subsection \<open>Degrading instead of raising\<close>

lemma dropna_filter:
  "list_all2 R (filter (\<lambda>r. f r \<noteq> None) xs)
     (map (\<lambda>(r, d). g r d) (dropna (map (\<lambda>r. (r, f r)) xs)))"
  if "\<And>r d. f r = Some d \<Longrightarrow> R r (g r d)"
  using that by (induction xs) (auto split: option.splits)

lemma invalid_count:
  "length (filter (\<lambda>(r, d). d = None) (map (\<lambda>r. (r, f r)) xs)) = length [r \<leftarrow> xs. f r = None]"
  by (induction xs) auto

text \<open>
  Claim C5. The preprocessor is a total function of the frame: no cell makes it fail.
  Of the rows left after removing duplicates, those whose date does not parse are
  counted, the count is printed when it is positive, and exactly those rows are dropped;
  every other row is kept, in order, with a budget, revenue and score that does not
  parse replaced by 0.0 and with a missing crew, genre, country, language or status
  replaced by "Unknown".
\<close>

theorem preprocess_degrades:
  assumes "preprocess_csv pd csv = (console, data)"
    and "kept = drop_duplicates (\<lambda>r. (csv_names r, csv_date_x r)) [] csv"
    and "invalid = [r \<leftarrow> kept. parse_date pd (csv_date_x r) = None]"
  shows "(Warning_invalid_dates n \<in> set console \<longleftrightarrow> n = length invalid \<and> 0 < n)
    \<and> list_all2
        (\<lambda>r row.
           parse_date pd (csv_date_x r) = Some (date_x row)
           \<and> budget_x row = (case csv_budget_x r of None \<Rightarrow> 0
                | Some x \<Rightarrow> (case to_numeric pd x of None \<Rightarrow> 0 | Some v \<Rightarrow> v))
           \<and> revenue row = (case csv_revenue r of None \<Rightarrow> 0
                | Some x \<Rightarrow> (case to_numeric pd x of None \<Rightarrow> 0 | Some v \<Rightarrow> v))
           \<and> score row = (case csv_score r of None \<Rightarrow> 0
                | Some x \<Rightarrow> (case to_numeric pd x of None \<Rightarrow> 0 | Some v \<Rightarrow> v))
           \<and> (csv_crew r = None \<longrightarrow> crew row = ''Unknown'')
           \<and> (csv_genre r = None \<longrightarrow> genre row = ''Unknown'')
           \<and> (csv_country r = None \<longrightarrow> country row = ''Unknown'')
           \<and> (csv_orig_lang r = None \<longrightarrow> orig_lang row = ''Unknown'')
           \<and> (csv_status r = None \<longrightarrow> status row = ''Unknown''))
        [r \<leftarrow> kept. parse_date pd (csv_date_x r) \<noteq> None] data"
proof -
  have unknown: "clean_crew ''Unknown'' = ''Unknown''" "remove_nbsp ''Unknown'' = ''Unknown''"
    "remove_whitespace ''Unknown'' = ''Unknown''" "str_strip ''Unknown'' = ''Unknown''"
    by (simp_all add: clean_crew_def remove_nbsp_def remove_whitespace_def str_strip_def
        is_space_def)
  have console: "console = (if 0 < length invalid then [Warning_invalid_dates (length invalid)] else [])
      @ [Preprocessing_csv_file, Csv_file_saved]"
  proof -
    have "console = fst (preprocess_csv pd csv)"
      using assms(1) by simp
    then show ?thesis
      unfolding preprocess_csv_def Let_def fst_conv invalid_count assms(2,3) by simp
  qed
  have data: "data = map (\<lambda>(r, d). clean_row pd r d)
      (dropna (map (\<lambda>r. (r, parse_date pd (csv_date_x r))) kept))"
  proof -
    have "data = snd (preprocess_csv pd csv)"
      using assms(1) by simp
    then show ?thesis
      unfolding preprocess_csv_def Let_def snd_conv assms(2) by simp
  qed
  have "Warning_invalid_dates n \<in> set console \<longleftrightarrow> n = length invalid \<and> 0 < n"
    unfolding console by auto
  moreover have "list_all2
        (\<lambda>r row.
           parse_date pd (csv_date_x r) = Some (date_x row)
           \<and> budget_x row = (case csv_budget_x r of None \<Rightarrow> 0
                | Some x \<Rightarrow> (case to_numeric pd x of None \<Rightarrow> 0 | Some v \<Rightarrow> v))
           \<and> revenue row = (case csv_revenue r of None \<Rightarrow> 0
                | Some x \<Rightarrow> (case to_numeric pd x of None \<Rightarrow> 0 | Some v \<Rightarrow> v))
           \<and> score row = (case csv_score r of None \<Rightarrow> 0
                | Some x \<Rightarrow> (case to_numeric pd x of None \<Rightarrow> 0 | Some v \<Rightarrow> v))
           \<and> (csv_crew r = None \<longrightarrow> crew row = ''Unknown'')
           \<and> (csv_genre r = None \<longrightarrow> genre row = ''Unknown'')
           \<and> (csv_country r = None \<longrightarrow> country row = ''Unknown'')
           \<and> (csv_orig_lang r = None \<longrightarrow> orig_lang row = ''Unknown'')
           \<and> (csv_status r = None \<longrightarrow> status row = ''Unknown''))
        [r \<leftarrow> kept. parse_date pd (csv_date_x r) \<noteq> None] data"
    unfolding data
    by (rule dropna_filter)
      (simp add: clean_row_def parse_number_def fillna_def unknown split: option.splits)
  ultimately show ?thesis by blast
qed

theorem preprocess_degrades_witness:
  "Warning_invalid_dates 1 \<in> set (fst (preprocess_csv example_pandas example_csv))
    \<and> length (snd (preprocess_csv example_pandas example_csv)) = 2
    \<and> map budget_x (snd (preprocess_csv example_pandas example_csv)) = [0, 55]"
proof -
  let ?kept = "drop_duplicates (\<lambda>r. (csv_names r, csv_date_x r)) [] example_csv"
  have invalid: "length [r \<leftarrow> ?kept. parse_date example_pandas (csv_date_x r) = None] = 1"
    by code_simp
  have valid: "length [r \<leftarrow> ?kept. parse_date example_pandas (csv_date_x r) \<noteq> None] = 2"
    by code_simp
  have budgets: "map budget_x (snd (preprocess_csv example_pandas example_csv)) = [0, 55]"
    by code_simp
  note run = preprocess_degrades [where pd = example_pandas and csv = example_csv and n = 1,
      OF prod.collapse [symmetric] refl refl]
  from run invalid
  have "Warning_invalid_dates 1 \<in> set (fst (preprocess_csv example_pandas example_csv))"
    by simp
  moreover from run valid
  have "length (snd (preprocess_csv example_pandas example_csv)) = 2"
    by (auto dest: list_all2_lengthD)
  ultimately show ?thesis
    using budgets by simp
qed

section \<open>Properties of the seeder\<close>

subsection \<open>Sequencing and statements\<close>

lemma bind_io_Inr:
  "bind_io f g s = (Inr y, s') \<longleftrightarrow> (\<exists>x s1. f s = (Inr x, s1) \<and> g x s1 = (Inr y, s'))"
  by (auto simp: bind_io_def split: prod.splits sum.splits)

lemma bind_io_Inl:
  "bind_io f g s = (Inl e, s') \<longleftrightarrow>
     f s = (Inl e, s') \<or> (\<exists>x s1. f s = (Inr x, s1) \<and> g x s1 = (Inl e, s'))"
  by (auto simp: bind_io_def split: prod.splits sum.splits)

lemma return_io_eq [simp]: "return_io x s = (r, s') \<longleftrightarrow> r = Inr x \<and> s' = s"
  by (auto simp: return_io_def)

lemma flush_eq [simp]: "flush s = (r, s') \<longleftrightarrow> r = Inr () \<and> s' = s"
  by (auto simp: flush_def)

lemma raise_or_return_eq [simp]: "raise_or_return v s = (r, s') \<longleftrightarrow> r = v \<and> s' = s"
  by (auto simp: raise_or_return_def)

lemma execute_select_Inr:
  assumes "execute_select q s = (Inr r, s')"
  shows "r = q (view s)" "view s' = view s" "committed s' = committed s"
    "writes s' = writes s" "faults s' = tl (faults s)" "txn s' = Some (view s)"
  using assms by (auto simp: execute_select_def view_def split: if_splits)

lemma execute_insert_Inr:
  assumes "execute_insert ins s = (Inr r, s')"
  shows "view s' = ins (view s)" "committed s' = committed s"
    "writes s' = Suc (writes s)" "faults s' = tl (faults s)" "txn s' = Some (ins (view s))"
  using assms by (auto simp: execute_insert_def view_def split: if_splits)

subsection \<open>Splitting into batches\<close>

lemma chunks_Nil [simp]: "chunks n [] = []"
  by (simp add: chunks.simps)

lemma concat_chunks: "0 < n \<Longrightarrow> concat (chunks n xs) = xs"
proof (induction n xs rule: chunks.induct)
  case (1 n xs)
  then show ?case
    by (cases "xs = []") (simp_all add: chunks.simps [of n xs])
qed

lemma chunks_eq_Nil: "0 < n \<Longrightarrow> chunks n xs = [] \<longleftrightarrow> xs = []"
  by (simp add: chunks.simps [of n xs])

lemma CHUNK_SIZE_pos: "0 < CHUNK_SIZE"
  by (simp add: CHUNK_SIZE_def)

lemma set_chunks: "\<Union> (set ` set (chunks CHUNK_SIZE xs)) = set xs"
  using concat_chunks [OF CHUNK_SIZE_pos, of xs] by (metis set_concat)

subsection \<open>Reference resolution\<close>

lemma row_by_key_Nil [simp]: "row_by_key [] = Map.empty"
  by (simp add: row_by_key_def)

lemma row_by_key_append: "row_by_key (t @ u) = row_by_key t ++ row_by_key u"
  by (simp add: row_by_key_def map_of_append)

lemma row_by_key_Some: "row_by_key t k = Some obj \<Longrightarrow> obj \<in> set t \<and> snd obj = k"
  unfolding row_by_key_def by (auto dest!: map_of_SomeD)

lemma dom_row_by_key: "dom (row_by_key t) = snd ` set t"
  by (auto simp: row_by_key_def dom_map_of_conv_image_fst image_image)

lemma fold_update:
  "fold (\<lambda>obj dict. dict(snd obj \<mapsto> obj)) rs d = d ++ row_by_key rs"
proof (induction rs arbitrary: d)
  case Nil
  then show ?case by simp
next
  case (Cons r rs)
  have split: "row_by_key (r # rs) = [snd r \<mapsto> r] ++ row_by_key rs"
    using row_by_key_append [of "[r]" rs] by (simp add: row_by_key_def)
  have "fold (\<lambda>obj dict. dict(snd obj \<mapsto> obj)) (r # rs) d
      = fold (\<lambda>obj dict. dict(snd obj \<mapsto> obj)) rs (d(snd r \<mapsto> r))"
    by (simp only: fold_simps)
  also have "\<dots> = d(snd r \<mapsto> r) ++ row_by_key rs"
    by (rule Cons.IH)
  also have "\<dots> = d ++ ([snd r \<mapsto> r] ++ row_by_key rs)"
    by (auto simp: fun_eq_iff map_add_def split: option.splits)
  finally show ?case
    by (simp only: split)
qed

lemma row_by_key_filter:
  "row_by_key (filter (\<lambda>obj. snd obj \<in> A) t) = row_by_key t |` A"
proof (induction t rule: rev_induct)
  case Nil
  then show ?case by simp
next
  case (snoc r t)
  then show ?case
    by (auto simp: row_by_key_append row_by_key_def restrict_map_def map_add_def fun_eq_iff
        split: option.splits)
qed

lemma select_existing_Inr:
  assumes "select_existing m cs d s = (Inr d', s')"
  shows "d' = d ++ (row_by_key (refs (view s) m) |` \<Union> (set ` set cs))
    \<and> view s' = view s \<and> committed s' = committed s \<and> writes s' = writes s"
  using assms
proof (induction cs arbitrary: d s)
  case Nil
  then show ?case by simp
next
  case (Cons c cs)
  from Cons.prems obtain result s1 where
    sel: "execute_select (\<lambda>db. filter (\<lambda>obj. snd obj \<in> set c) (refs db m)) s = (Inr result, s1)"
    and rest: "select_existing m cs (fold (\<lambda>obj dict. dict(snd obj \<mapsto> obj)) result d) s1
        = (Inr d', s')"
    by (auto simp: bind_io_Inr)
  note e = execute_select_Inr [OF sel]
  have d1: "fold (\<lambda>obj dict. dict(snd obj \<mapsto> obj)) result d
      = d ++ (row_by_key (refs (view s) m) |` set c)"
    by (simp add: e(1) fold_update row_by_key_filter)
  have union: "(f |` A) ++ (f |` B) = f |` (A \<union> B)" for f :: "string \<rightharpoonup> obj" and A B
    by (auto simp: restrict_map_def map_add_def fun_eq_iff split: option.splits)
  from Cons.IH [OF rest]
  have "d' = (d ++ (row_by_key (refs (view s) m) |` set c))
        ++ (row_by_key (refs (view s) m) |` \<Union> (set ` set cs))"
    and frame: "view s' = view s1" "committed s' = committed s1" "writes s' = writes s1"
    by (simp_all only: d1 e(2))
  then have "d' = d ++ (row_by_key (refs (view s) m) |` (set c \<union> \<Union> (set ` set cs)))"
    by (simp only: map_add_assoc [symmetric] union)
  then show ?case
    using frame e by simp
qed


lemma map_snd_insert_values: "\<exists>new. insert_values vs t = t @ new \<and> map snd new = vs"
  by (simp add: insert_values_def)

lemma refs_append_Nil [simp]: "d\<lparr>refs := (refs d)(m := refs d m @ [])\<rparr> = d"
proof -
  have "(refs d)(m := refs d m @ []) = refs d"
    by (simp add: fun_eq_iff)
  then show ?thesis by simp
qed

lemma refs_append_append [simp]:
  "d\<lparr>refs := (refs d)(m := refs d m @ a)\<rparr>\<lparr>refs := (refs (d\<lparr>refs := (refs d)(m := refs d m @ a)\<rparr>))
      (m := refs (d\<lparr>refs := (refs d)(m := refs d m @ a)\<rparr>) m @ b)\<rparr>
    = d\<lparr>refs := (refs d)(m := refs d m @ (a @ b))\<rparr>"
  by simp

lemma insert_new_records_Inr:
  assumes "insert_new_records m cs s = (Inr u, s')"
  shows "\<exists>new. view s' = (view s)\<lparr>refs := (refs (view s))(m := refs (view s) m @ new)\<rparr>
      \<and> map snd new = concat cs \<and> committed s' = committed s"
  using assms
proof (induction cs arbitrary: s)
  case Nil
  then have "s' = s" by simp
  moreover have "view s = (view s)\<lparr>refs := (refs (view s))(m := refs (view s) m @ [])\<rparr>"
    by (simp only: refs_append_Nil)
  moreover have "map snd ([] :: obj list) = concat []"
    by simp
  ultimately show ?case by blast
next
  case (Cons c cs)
  from Cons.prems obtain s1 where
    ins: "execute_insert (insert_refs m c) s = (Inr (), s1)"
    and rest: "insert_new_records m cs s1 = (Inr u, s')"
    by (auto simp: bind_io_Inr)
  note e = execute_insert_Inr [OF ins]
  obtain n1 where n1: "insert_values c (refs (view s) m) = refs (view s) m @ n1"
    "map snd n1 = c"
    using map_snd_insert_values by blast
  from Cons.IH [OF rest] obtain n2 where
    n2: "view s' = (view s1)\<lparr>refs := (refs (view s1))(m := refs (view s1) m @ n2)\<rparr>"
    "map snd n2 = concat cs" "committed s' = committed s1"
    by blast
  have s1: "view s1 = (view s)\<lparr>refs := (refs (view s))(m := refs (view s) m @ n1)\<rparr>"
    by (simp only: e(1) insert_refs_def n1(1))
  have "view s' = (view s)\<lparr>refs := (refs (view s))(m := refs (view s) m @ (n1 @ n2))\<rparr>"
    unfolding n2(1) s1 by (rule refs_append_append)
  moreover have "map snd (n1 @ n2) = concat (c # cs)"
    by (simp add: n1(2) n2(2))
  moreover have "committed s' = committed s"
    using n2(3) e(2) by simp
  ultimately show ?case by blast
qed

lemma get_or_create_bulk_Inr:
  assumes "get_or_create_bulk m items s = (Inr d, s')"
  shows "\<exists>new. view s' = (view s)\<lparr>refs := (refs (view s))(m := refs (view s) m @ new)\<rparr>
      \<and> map snd new = [item \<leftarrow> items. item \<notin> snd ` set (refs (view s) m)]
      \<and> (new = [] \<longrightarrow> writes s' = writes s)
      \<and> d = row_by_key (refs (view s') m) |` set items
      \<and> committed s' = committed s"
proof -
  let ?T = "refs (view s) m"
  let ?existing = "row_by_key ?T |` set items"
  let ?new_items = "[item \<leftarrow> items. ?existing item = None]"
  have new_items: "?new_items = [item \<leftarrow> items. item \<notin> snd ` set ?T]"
  proof -
    have "?existing item = None \<longleftrightarrow> item \<notin> snd ` set ?T" if "item \<in> set items" for item
      using that dom_row_by_key [of ?T] by (auto simp: restrict_map_def domIff)
    then show ?thesis
      by (intro filter_cong refl)
  qed
  from assms obtain existing s1 where
    first: "(if items \<noteq> [] then select_existing m (chunks CHUNK_SIZE items) Map.empty
             else return_io Map.empty) s = (Inr existing, s1)"
    and second: "(let new_items = filter (\<lambda>item. existing item = None) items
          in if new_items \<noteq> []
             then bind_io (insert_new_records m (chunks CHUNK_SIZE new_items))
                    (\<lambda>_. select_existing m (chunks CHUNK_SIZE new_items) existing)
             else return_io existing) s1 = (Inr d, s')"
    by (auto simp: get_or_create_bulk_def bind_io_Inr)
  have "existing = ?existing \<and> view s1 = view s \<and> committed s1 = committed s
      \<and> writes s1 = writes s"
  proof (cases "items = []")
    case True
    with first show ?thesis by simp
  next
    case False
    with first have "select_existing m (chunks CHUNK_SIZE items) Map.empty s = (Inr existing, s1)"
      by simp
    from select_existing_Inr [OF this] show ?thesis
      by (simp add: set_chunks)
  qed
  then have existing: "existing = ?existing" and s1: "view s1 = view s"
    "committed s1 = committed s" "writes s1 = writes s"
    by simp_all
  show ?thesis
  proof (cases "?new_items = []")
    case True
    with second existing have same: "d = ?existing" "s' = s1"
      by (simp_all add: Let_def)
    have "view s' = (view s)\<lparr>refs := (refs (view s))(m := ?T @ [])\<rparr>"
      unfolding same s1 by (simp only: refs_append_Nil)
    moreover have "map snd ([] :: obj list) = [item \<leftarrow> items. item \<notin> snd ` set ?T]"
      using True new_items by simp
    moreover have "writes s' = writes s"
      using same s1 by simp
    moreover have "d = row_by_key (refs (view s') m) |` set items"
      using same s1 by simp
    moreover have "committed s' = committed s"
      using same s1 by simp
    ultimately show ?thesis
      by blast
  next
    case False
    with second existing obtain u s2 where
      ins: "insert_new_records m (chunks CHUNK_SIZE ?new_items) s1 = (Inr u, s2)"
      and sel: "select_existing m (chunks CHUNK_SIZE ?new_items) ?existing s2 = (Inr d, s')"
      by (auto simp: Let_def bind_io_Inr)
    from insert_new_records_Inr [OF ins] obtain new where
      new: "view s2 = (view s1)\<lparr>refs := (refs (view s1))(m := refs (view s1) m @ new)\<rparr>"
      "map snd new = ?new_items" and c2: "committed s2 = committed s1"
      unfolding concat_chunks [OF CHUNK_SIZE_pos] by blast
    note fin = select_existing_Inr [OF sel]
    have v: "view s' = (view s)\<lparr>refs := (refs (view s))(m := ?T @ new)\<rparr>"
      using fin new(1) s1 by simp
    then have T1: "refs (view s') m = ?T @ new"
      by simp
    have "new \<noteq> []"
      using new(2) False by auto
    have keys_new: "snd ` set new = set ?new_items"
      using new(2) by (metis set_map)
    have d: "d = ?existing ++ (row_by_key (?T @ new) |` set ?new_items)"
      using fin new(1) s1 by (simp add: set_chunks)
    have "d k = (row_by_key (?T @ new) |` set items) k" for k
    proof (cases "k \<in> set items")
      case False
      then show ?thesis
        by (simp add: d map_add_def restrict_map_def)
    next
      case True
      show ?thesis
      proof (cases "k \<in> snd ` set ?T")
        case old: True
        then have "k \<notin> snd ` set new"
          unfolding keys_new new_items by simp
        then have "row_by_key new k = None"
          using dom_row_by_key [of new] by (auto simp: domIff)
        moreover have "k \<notin> set ?new_items"
          using old unfolding new_items by simp
        ultimately show ?thesis
          using True by (simp add: d map_add_def restrict_map_def row_by_key_append)
      next
        case fresh: False
        then have "k \<in> set ?new_items"
          using True unfolding new_items by simp
        moreover from this have "k \<in> dom (row_by_key new)"
          using keys_new dom_row_by_key [of new] by simp
        ultimately show ?thesis
          using True
          by (auto simp: d map_add_def restrict_map_def row_by_key_append split: option.splits)
      qed
    qed
    then have "d = row_by_key (refs (view s') m) |` set items"
      unfolding T1 by (rule ext)
    moreover have "committed s' = committed s"
      using fin c2 s1 by simp
    moreover have "map snd new = [item \<leftarrow> items. item \<notin> snd ` set ?T]"
      using new(2) new_items by simp
    ultimately show ?thesis
      using v \<open>new \<noteq> []\<close> by blast
  qed
qed


lemma get_or_create_bulk_keys:
  assumes "get_or_create_bulk m items s = (Inr d, s')"
  shows "set items \<subseteq> snd ` set (refs (view s') m)"
proof -
  from get_or_create_bulk_Inr [OF assms] obtain new where
    v: "view s' = (view s)\<lparr>refs := (refs (view s))(m := refs (view s) m @ new)\<rparr>"
    and new: "map snd new = [item \<leftarrow> items. item \<notin> snd ` set (refs (view s) m)]"
    by blast
  have "snd ` set new = {item \<in> set items. item \<notin> snd ` set (refs (view s) m)}"
    using new by (metis set_filter set_map)
  moreover have "refs (view s') m = refs (view s) m @ new"
    unfolding v by simp
  ultimately show ?thesis
    by auto
qed

text \<open>
  Claim C4. When \<open>get_or_create_bulk\<close> returns, the keys of the returned map are exactly
  the input strings (a map holds a key once), and each is mapped to a row of the table
  that carries this key, whether it was there before or has just been inserted.
\<close>

theorem get_or_create_bulk_covers_items:
  assumes "get_or_create_bulk m items s = (Inr d, s')"
  shows "dom d = set items
    \<and> (\<forall>k\<in>set items. \<exists>obj. d k = Some obj \<and> snd obj = k \<and> obj \<in> set (refs (view s') m))"
proof -
  from get_or_create_bulk_Inr [OF assms]
  have d: "d = row_by_key (refs (view s') m) |` set items"
    by blast
  have keys: "set items \<subseteq> dom (row_by_key (refs (view s') m))"
    using get_or_create_bulk_keys [OF assms] by (simp add: dom_row_by_key)
  have "dom d = set items"
    unfolding d using keys by auto
  moreover have "\<exists>obj. d k = Some obj \<and> snd obj = k \<and> obj \<in> set (refs (view s') m)"
    if "k \<in> set items" for k
  proof -
    from that keys obtain obj where "row_by_key (refs (view s') m) k = Some obj"
      by blast
    with that show ?thesis
      unfolding d using row_by_key_Some by fastforce
  qed
  ultimately show ?thesis
    by blast
qed

lemma select_existing_frame:
  "select_existing m cs d s = (r, s') \<Longrightarrow>
     view s' = view s \<and> writes s' = writes s \<and> committed s' = committed s"
proof (induction cs arbitrary: d s)
  case Nil
  then show ?case by simp
next
  case (Cons c cs)
  show ?case
  proof (cases "next_fails s")
    case True
    with Cons.prems show ?thesis
      by (auto simp: bind_io_def execute_select_def view_def)
  next
    case False
    with Cons.prems have "select_existing m cs
        (fold (\<lambda>obj dict. dict(snd obj \<mapsto> obj))
           (filter (\<lambda>obj. snd obj \<in> set c) (refs (view s) m)) d)
        (s\<lparr>txn := Some (view s), faults := tl (faults s)\<rparr>) = (r, s')"
      by (simp add: bind_io_def execute_select_def)
    from Cons.IH [OF this] show ?thesis
      by (simp add: view_def)
  qed
qed

lemma next_fails_False: "True \<notin> set (faults s) \<Longrightarrow> \<not> next_fails s"
  by (auto simp: next_fails_def split: list.splits)

lemma tl_faults: "True \<notin> set (faults s) \<Longrightarrow> True \<notin> set (tl (faults s))"
  by (cases "faults s") auto

lemma select_existing_Inl:
  "select_existing m cs d s = (Inl e, s') \<Longrightarrow> True \<in> set (faults s)"
proof (induction cs arbitrary: d s)
  case Nil
  then show ?case by simp
next
  case (Cons c cs)
  show ?case
  proof (rule ccontr)
    assume ok: "True \<notin> set (faults s)"
    then have "\<not> next_fails s"
      by (rule next_fails_False)
    with Cons.prems have "select_existing m cs
        (fold (\<lambda>obj dict. dict(snd obj \<mapsto> obj))
           (filter (\<lambda>obj. snd obj \<in> set c) (refs (view s) m)) d)
        (s\<lparr>txn := Some (view s), faults := tl (faults s)\<rparr>) = (Inl e, s')"
      by (simp add: bind_io_def execute_select_def)
    from Cons.IH [OF this] show False
      using tl_faults [OF ok] by simp
  qed
qed

text \<open>
  Claim C3. After a run of \<open>get_or_create_bulk\<close> that returned, a second run on the same
  keys inserts nothing: the tables and the count of insert statements stay as the first
  run left them. It returns the very map the first run returned, unless one of its
  select statements fails, which takes a scheduled failure.
\<close>

theorem get_or_create_bulk_idempotent:
  assumes "get_or_create_bulk m items s = (Inr d1, s1)"
  shows "\<exists>r s2. get_or_create_bulk m items s1 = (r, s2)
    \<and> view s2 = view s1 \<and> writes s2 = writes s1 \<and> committed s2 = committed s1
    \<and> (r = Inr d1 \<or> (\<exists>e. r = Inl e \<and> True \<in> set (faults s1)))"
proof -
  let ?T = "refs (view s1) m"
  from get_or_create_bulk_Inr [OF assms]
  have d1: "d1 = row_by_key ?T |` set items"
    by blast
  have keys: "set items \<subseteq> dom (row_by_key ?T)"
    using get_or_create_bulk_keys [OF assms] by (simp add: dom_row_by_key)
  have none_new: "[item \<leftarrow> items. d1 item = None] = []"
    unfolding d1 using keys by (auto simp: filter_empty_conv restrict_map_def)
  show ?thesis
  proof (cases "items = []")
    case True
    then show ?thesis
      by (simp add: get_or_create_bulk_def bind_io_def return_io_def d1)
  next
    case False
    obtain r0 s2 where run: "select_existing m (chunks CHUNK_SIZE items) Map.empty s1 = (r0, s2)"
      by (cases "select_existing m (chunks CHUNK_SIZE items) Map.empty s1") blast
    note frame = select_existing_frame [OF run]
    show ?thesis
    proof (cases r0)
      case (Inl e)
      with run have "True \<in> set (faults s1)"
        by (auto dest: select_existing_Inl)
      moreover have "get_or_create_bulk m items s1 = (Inl e, s2)"
        using False run Inl by (simp add: get_or_create_bulk_def bind_io_def)
      ultimately show ?thesis
        using frame by simp
    next
      case (Inr existing)
      with run have "existing = d1"
        using select_existing_Inr [of m "chunks CHUNK_SIZE items" Map.empty s1 existing s2]
        by (simp add: set_chunks frame d1)
      then have "get_or_create_bulk m items s1 = (Inr d1, s2)"
        using False run Inr none_new
        by (simp add: get_or_create_bulk_def bind_io_def Let_def return_io_def)
      then show ?thesis
        using frame by simp
    qed
  qed
qed

theorem get_or_create_bulk_covers_items_witness:
  "\<not> isl (fst (get_or_create_bulk GenreModel [''Action'', ''Crime''] (new_session empty_store [])))
    \<and> dom (projr (fst (get_or_create_bulk GenreModel [''Action'', ''Crime'']
          (new_session empty_store [])))) = set [''Action'', ''Crime'']"
proof -
  let ?run = "get_or_create_bulk GenreModel [''Action'', ''Crime''] (new_session empty_store [])"
  have ok: "\<not> isl (fst ?run)"
    by code_simp
  then have "?run = (Inr (projr (fst ?run)), snd ?run)"
    by (simp add: prod_eq_iff)
  from get_or_create_bulk_covers_items [OF this] ok show ?thesis
    by blast
qed

theorem get_or_create_bulk_idempotent_witness:
  "\<not> isl (fst (get_or_create_bulk GenreModel [''Action'', ''Crime''] (new_session empty_store [])))
    \<and> fst (get_or_create_bulk GenreModel [''Action'', ''Crime'']
          (snd (get_or_create_bulk GenreModel [''Action'', ''Crime''] (new_session empty_store []))))
        = Inr (projr (fst (get_or_create_bulk GenreModel [''Action'', ''Crime'']
            (new_session empty_store []))))
    \<and> writes (snd (get_or_create_bulk GenreModel [''Action'', ''Crime'']
          (snd (get_or_create_bulk GenreModel [''Action'', ''Crime'']
            (new_session empty_store [])))))
        = writes (snd (get_or_create_bulk GenreModel [''Action'', ''Crime'']
            (new_session empty_store [])))"
proof -
  let ?run = "get_or_create_bulk GenreModel [''Action'', ''Crime''] (new_session empty_store [])"
  have ok: "\<not> isl (fst ?run)"
    by code_simp
  have quiet: "faults (snd ?run) = []"
    by code_simp
  from ok have "?run = (Inr (projr (fst ?run)), snd ?run)"
    by (simp add: prod_eq_iff)
  from get_or_create_bulk_idempotent [OF this] quiet ok show ?thesis
    by auto
qed

lemma bind_io_InrE:
  assumes "bind_io f g s = (Inr y, s')"
  obtains x s1 where "f s = (Inr x, s1)" and "g x s1 = (Inr y, s')"
  using assms by (auto simp: bind_io_Inr)

lemma get_or_create_bulk_covers_items_dom:
  "get_or_create_bulk m items s = (Inr d, s') \<Longrightarrow> dom d = set items"
proof -
  assume run: "get_or_create_bulk m items s = (Inr d, s')"
  from get_or_create_bulk_Inr [OF run]
  have d: "d = row_by_key (refs (view s') m) |` set items"
    by blast
  have "set items \<subseteq> dom (row_by_key (refs (view s') m))"
    using get_or_create_bulk_keys [OF run] by (simp add: dom_row_by_key)
  then show ?thesis
    unfolding d by auto
qed

subsection \<open>Building the movie records\<close>

lemma prepare_movies_data_Inr:
  "prepare_movies_data data country_map = Inr movies_data \<Longrightarrow>
     list_all2 (\<lambda>row movie. \<exists>c. country_map (country row) = Some c \<and> movie = movie_of row c)
       data movies_data"
proof (induction data arbitrary: movies_data)
  case Nil
  then show ?case by simp
next
  case (Cons row rest)
  then show ?case
    by (auto split: option.splits sum.splits)
qed

lemma prepare_movies_data_total:
  "\<forall>row\<in>set data. country row \<in> dom country_map \<Longrightarrow>
     \<exists>movies_data. prepare_movies_data data country_map = Inr movies_data"
  by (induction data) (auto split: option.splits sum.splits)

subsection \<open>Building the associations\<close>

lemma tokens_Cons:
  "filter (\<lambda>t. t \<noteq> []) (map str_strip (t # ts))
     = (if str_strip t \<noteq> [] then [str_strip t] else [])
       @ filter (\<lambda>t. t \<noteq> []) (map str_strip ts)"
  by simp

lemma associate_Inr:
  "associate ref_map movie_id ts acc = Inr r \<Longrightarrow>
     \<exists>new. r = acc @ new
       \<and> list_all2 (\<lambda>t pair. \<exists>obj. ref_map t = Some obj \<and> pair = (movie_id, fst obj))
           (filter (\<lambda>t. t \<noteq> []) (map str_strip ts)) new"
proof (induction ts arbitrary: acc)
  case Nil
  then show ?case by simp
next
  case (Cons t ts)
  show ?case
  proof (cases "str_strip t = []")
    case True
    with Cons.prems have "associate ref_map movie_id ts acc = Inr r"
      by simp
    from Cons.IH [OF this] True show ?thesis
      by simp
  next
    case False
    with Cons.prems obtain obj where obj: "ref_map (str_strip t) = Some obj"
      and rest: "associate ref_map movie_id ts (acc @ [(movie_id, fst obj)]) = Inr r"
      by (auto simp: Let_def split: option.splits)
    from Cons.IH [OF rest] obtain new where
      new: "r = (acc @ [(movie_id, fst obj)]) @ new"
      "list_all2 (\<lambda>t pair. \<exists>obj. ref_map t = Some obj \<and> pair = (movie_id, fst obj))
           (filter (\<lambda>t. t \<noteq> []) (map str_strip ts)) new"
      by blast
    have "r = acc @ ((movie_id, fst obj) # new)"
      using new(1) by simp
    moreover have "list_all2 (\<lambda>t pair. \<exists>obj. ref_map t = Some obj \<and> pair = (movie_id, fst obj))
        (filter (\<lambda>t. t \<noteq> []) (map str_strip (t # ts))) ((movie_id, fst obj) # new)"
      using False obj new(2) by (cases obj) simp
    ultimately show ?thesis
      by blast
  qed
qed

lemma associate_total:
  "\<forall>t\<in>set (filter (\<lambda>t. t \<noteq> []) (map str_strip ts)). t \<in> dom ref_map \<Longrightarrow>
     \<exists>r. associate ref_map movie_id ts acc = Inr r"
proof (induction ts arbitrary: acc)
  case Nil
  then show ?case by simp
next
  case (Cons t ts)
  from Cons.prems have rest: "\<forall>t\<in>set (filter (\<lambda>t. t \<noteq> []) (map str_strip ts)). t \<in> dom ref_map"
    by (simp split: if_splits)
  show ?case
  proof (cases "str_strip t = []")
    case True
    then show ?thesis
      using Cons.IH [OF rest, of acc] by simp
  next
    case False
    with Cons.prems obtain obj where "ref_map (str_strip t) = Some obj"
      by auto
    with False show ?thesis
      using Cons.IH [OF rest, of "acc @ [(movie_id, fst obj)]"] by (simp add: Let_def)
  qed
qed

text \<open>The pairs of one category, as the specification lists them: row by row, token by token.\<close>

lemma tagged_tokens_Cons:
  "concat (map (\<lambda>(movie_id, row). map (Pair movie_id) (tokens (f row))) (zip (i # ids) (row # rows)))
     = map (Pair i) (tokens (f row))
       @ concat (map (\<lambda>(movie_id, row). map (Pair movie_id) (tokens (f row))) (zip ids rows))"
  by simp

lemma list_all2_Pair:
  "list_all2 (\<lambda>t pair. \<exists>obj. ref_map t = Some obj \<and> pair = (movie_id, fst obj)) ts new \<Longrightarrow>
     list_all2 (\<lambda>(movie_id, t) pair. \<exists>obj. ref_map t = Some obj \<and> pair = (movie_id, fst obj))
       (map (Pair movie_id) ts) new"
  by (induction ts new rule: list_all2_induct) auto

lemma prepare_associations_from_Inr:
  assumes "prepare_associations_from i data movie_ids genre_map actor_map language_map
      (g0, a0, l0) = Inr (gs, acs, ls)"
  shows "length data \<le> length movie_ids - i
    \<and> (\<exists>gn an ln. gs = g0 @ gn \<and> acs = a0 @ an \<and> ls = l0 @ ln
        \<and> list_all2 (\<lambda>(movie_id, t) pair. \<exists>obj. genre_map t = Some obj \<and> pair = (movie_id, fst obj))
            (concat (map (\<lambda>(movie_id, row). map (Pair movie_id) (tokens (genre row)))
               (zip (drop i movie_ids) data))) gn
        \<and> list_all2 (\<lambda>(movie_id, t) pair. \<exists>obj. actor_map t = Some obj \<and> pair = (movie_id, fst obj))
            (concat (map (\<lambda>(movie_id, row). map (Pair movie_id) (tokens (crew row)))
               (zip (drop i movie_ids) data))) an
        \<and> list_all2 (\<lambda>(movie_id, t) pair. \<exists>obj. language_map t = Some obj \<and> pair = (movie_id, fst obj))
            (concat (map (\<lambda>(movie_id, row). map (Pair movie_id) (tokens (orig_lang row)))
               (zip (drop i movie_ids) data))) ln)"
  using assms
proof (induction data arbitrary: i g0 a0 l0)
  case Nil
  then show ?case by simp
next
  case (Cons row rest)
  from Cons.prems have i: "i < length movie_ids"
    by (auto split: if_splits)
  with Cons.prems obtain g1 a1 l1 where
    g1: "associate genre_map (movie_ids ! i) (str_split CHR '','' (genre row)) g0 = Inr g1"
    and a1: "associate actor_map (movie_ids ! i) (str_split CHR '','' (crew row)) a0 = Inr a1"
    and l1: "associate language_map (movie_ids ! i) (str_split CHR '','' (orig_lang row)) l0 = Inr l1"
    and rest: "prepare_associations_from (Suc i) rest movie_ids genre_map actor_map language_map
        (g1, a1, l1) = Inr (gs, acs, ls)"
    by (auto simp: Let_def split: sum.splits)
  from associate_Inr [OF g1] obtain gn1 where gn1: "g1 = g0 @ gn1"
    "list_all2 (\<lambda>(movie_id, t) pair. \<exists>obj. genre_map t = Some obj \<and> pair = (movie_id, fst obj))
       (map (Pair (movie_ids ! i)) (tokens (genre row))) gn1"
    unfolding tokens_def by (blast intro: list_all2_Pair)
  from associate_Inr [OF a1] obtain an1 where an1: "a1 = a0 @ an1"
    "list_all2 (\<lambda>(movie_id, t) pair. \<exists>obj. actor_map t = Some obj \<and> pair = (movie_id, fst obj))
       (map (Pair (movie_ids ! i)) (tokens (crew row))) an1"
    unfolding tokens_def by (blast intro: list_all2_Pair)
  from associate_Inr [OF l1] obtain ln1 where ln1: "l1 = l0 @ ln1"
    "list_all2 (\<lambda>(movie_id, t) pair. \<exists>obj. language_map t = Some obj \<and> pair = (movie_id, fst obj))
       (map (Pair (movie_ids ! i)) (tokens (orig_lang row))) ln1"
    unfolding tokens_def by (blast intro: list_all2_Pair)
  from Cons.IH [OF rest] obtain gn an ln where
    len: "length rest \<le> length movie_ids - Suc i"
    and eqs: "gs = g1 @ gn" "acs = a1 @ an" "ls = l1 @ ln"
    and gn: "list_all2 (\<lambda>(movie_id, t) pair. \<exists>obj. genre_map t = Some obj \<and> pair = (movie_id, fst obj))
            (concat (map (\<lambda>(movie_id, row). map (Pair movie_id) (tokens (genre row)))
               (zip (drop (Suc i) movie_ids) rest))) gn"
    and an: "list_all2 (\<lambda>(movie_id, t) pair. \<exists>obj. actor_map t = Some obj \<and> pair = (movie_id, fst obj))
            (concat (map (\<lambda>(movie_id, row). map (Pair movie_id) (tokens (crew row)))
               (zip (drop (Suc i) movie_ids) rest))) an"
    and ln: "list_all2 (\<lambda>(movie_id, t) pair. \<exists>obj. language_map t = Some obj \<and> pair = (movie_id, fst obj))
            (concat (map (\<lambda>(movie_id, row). map (Pair movie_id) (tokens (orig_lang row)))
               (zip (drop (Suc i) movie_ids) rest))) ln"
    by blast
  have drop: "drop i movie_ids = movie_ids ! i # drop (Suc i) movie_ids"
    using i by (simp add: Cons_nth_drop_Suc)
  have "gs = g0 @ (gn1 @ gn)" "acs = a0 @ (an1 @ an)" "ls = l0 @ (ln1 @ ln)"
    using eqs gn1(1) an1(1) ln1(1) by simp_all
  moreover have "list_all2 (\<lambda>(movie_id, t) pair. \<exists>obj. genre_map t = Some obj \<and> pair = (movie_id, fst obj))
            (concat (map (\<lambda>(movie_id, row). map (Pair movie_id) (tokens (genre row)))
               (zip (drop i movie_ids) (row # rest)))) (gn1 @ gn)"
    unfolding drop tagged_tokens_Cons using gn1(2) gn by (rule list_all2_appendI)
  moreover have "list_all2 (\<lambda>(movie_id, t) pair. \<exists>obj. actor_map t = Some obj \<and> pair = (movie_id, fst obj))
            (concat (map (\<lambda>(movie_id, row). map (Pair movie_id) (tokens (crew row)))
               (zip (drop i movie_ids) (row # rest)))) (an1 @ an)"
    unfolding drop tagged_tokens_Cons using an1(2) an by (rule list_all2_appendI)
  moreover have "list_all2 (\<lambda>(movie_id, t) pair. \<exists>obj. language_map t = Some obj \<and> pair = (movie_id, fst obj))
            (concat (map (\<lambda>(movie_id, row). map (Pair movie_id) (tokens (orig_lang row)))
               (zip (drop i movie_ids) (row # rest)))) (ln1 @ ln)"
    unfolding drop tagged_tokens_Cons using ln1(2) ln by (rule list_all2_appendI)
  moreover have "length (row # rest) \<le> length movie_ids - i"
    using len i by simp
  ultimately show ?case
    by blast
qed

text \<open>
  Claim C7. When \<open>prepare_associations\<close> returns, each of its three lists holds exactly
  one pair per non-empty trimmed token of the corresponding field, row by row and token
  by token: the movie identifier of the row, and the identifier the map gives for the
  token. An empty token, as after the trailing comma of "Action,", gives no pair.
\<close>

theorem prepare_associations_pairs:
  assumes "prepare_associations data movie_ids genre_map actor_map language_map
      = Inr (movie_genres_data, movie_actors_data, movie_languages_data)"
  shows "list_all2 (\<lambda>(movie_id, t) pair. \<exists>obj. genre_map t = Some obj \<and> pair = (movie_id, fst obj))
      (concat (map (\<lambda>(movie_id, row). map (Pair movie_id) (tokens (genre row)))
         (zip movie_ids data))) movie_genres_data
    \<and> list_all2 (\<lambda>(movie_id, t) pair. \<exists>obj. actor_map t = Some obj \<and> pair = (movie_id, fst obj))
      (concat (map (\<lambda>(movie_id, row). map (Pair movie_id) (tokens (crew row)))
         (zip movie_ids data))) movie_actors_data
    \<and> list_all2 (\<lambda>(movie_id, t) pair. \<exists>obj. language_map t = Some obj \<and> pair = (movie_id, fst obj))
      (concat (map (\<lambda>(movie_id, row). map (Pair movie_id) (tokens (orig_lang row)))
         (zip movie_ids data))) movie_languages_data"
  using prepare_associations_from_Inr [of 0 data movie_ids genre_map actor_map language_map
      "[]" "[]" "[]" movie_genres_data movie_actors_data movie_languages_data] assms
  by (simp add: prepare_associations_def)

theorem prepare_associations_pairs_witness:
  "prepare_associations example_data [1, 2] example_genre_map example_actor_map
      example_language_map
     = Inr ([(1, 1), (2, 1), (2, 2)], [(1, 1), (1, 2), (2, 3), (2, 4)], [(1, 1), (2, 1), (2, 2)])
   \<and> map genre example_data = [''Action,'', ''Action, Crime'']
   \<and> list_all2 (\<lambda>(movie_id, t) pair. \<exists>obj. example_genre_map t = Some obj \<and> pair = (movie_id, fst obj))
      [(1 :: nat, ''Action''), (2, ''Action''), (2, ''Crime'')] [(1, 1 :: nat), (2, 1), (2, 2)]"
proof -
  have run: "prepare_associations example_data [1, 2] example_genre_map example_actor_map
      example_language_map
     = Inr ([(1, 1), (2, 1), (2, 2)], [(1, 1), (1, 2), (2, 3), (2, 4)], [(1, 1), (2, 1), (2, 2)])"
    by code_simp
  have genres: "map genre example_data = [''Action,'', ''Action, Crime'']"
    by code_simp
  have tagged: "concat (map (\<lambda>(movie_id, row). map (Pair movie_id) (tokens (genre row)))
      (zip [1, 2 :: nat] example_data)) = [(1, ''Action''), (2, ''Action''), (2, ''Crime'')]"
    by code_simp
  from prepare_associations_pairs [OF run] have
    "list_all2 (\<lambda>(movie_id, t) pair. \<exists>obj. example_genre_map t = Some obj \<and> pair = (movie_id, fst obj))
      (concat (map (\<lambda>(movie_id, row). map (Pair movie_id) (tokens (genre row)))
         (zip [1, 2 :: nat] example_data))) [(1, 1 :: nat), (2, 1), (2, 2)]"
    by (rule conjunct1)
  then show ?thesis
    unfolding tagged using run genres by (intro conjI)
qed

lemma prepare_associations_from_total:
  assumes "i + length data \<le> length movie_ids"
    and "\<forall>row\<in>set data. set (tokens (genre row)) \<subseteq> dom genre_map
        \<and> set (tokens (crew row)) \<subseteq> dom actor_map
        \<and> set (tokens (orig_lang row)) \<subseteq> dom language_map"
  shows "\<exists>r. prepare_associations_from i data movie_ids genre_map actor_map language_map acc = Inr r"
  using assms
proof (induction data arbitrary: i acc)
  case Nil
  then show ?case by (cases acc) auto
next
  case (Cons row rest)
  obtain g0 a0 l0 where acc: "acc = (g0, a0, l0)"
    by (cases acc) auto
  have g: "\<forall>t\<in>set (filter (\<lambda>t. t \<noteq> []) (map str_strip (str_split CHR '','' (genre row)))).
      t \<in> dom genre_map"
    and a: "\<forall>t\<in>set (filter (\<lambda>t. t \<noteq> []) (map str_strip (str_split CHR '','' (crew row)))).
      t \<in> dom actor_map"
    and l: "\<forall>t\<in>set (filter (\<lambda>t. t \<noteq> []) (map str_strip (str_split CHR '','' (orig_lang row)))).
      t \<in> dom language_map"
    using Cons.prems(2) unfolding tokens_def by auto
  obtain g1 where "associate genre_map (movie_ids ! i) (str_split CHR '','' (genre row)) g0 = Inr g1"
    using associate_total [OF g] by blast
  moreover obtain a1 where
    "associate actor_map (movie_ids ! i) (str_split CHR '','' (crew row)) a0 = Inr a1"
    using associate_total [OF a] by blast
  moreover obtain l1 where
    "associate language_map (movie_ids ! i) (str_split CHR '','' (orig_lang row)) l0 = Inr l1"
    using associate_total [OF l] by blast
  moreover have "\<exists>r. prepare_associations_from (Suc i) rest movie_ids genre_map actor_map
      language_map (g1, a1, l1) = Inr r"
    using Cons.IH [of "Suc i" "(g1, a1, l1)"] Cons.prems by simp
  moreover have "i < length movie_ids"
    using Cons.prems(1) by simp
  ultimately show ?case
    unfolding acc by (auto simp: Let_def)
qed

subsection \<open>The candidate sets\<close>

lemma set_drop_duplicates: "set (drop_duplicates id seen xs) = set xs - set seen"
  by (induction xs arbitrary: seen) auto

lemma set_candidates:
  "set [str_strip t. g \<leftarrow> map f data, t \<leftarrow> str_split CHR '','' g, str_strip t \<noteq> []]
     = (\<Union>row\<in>set data. set (tokens (f row)))"
  by (auto simp: tokens_def)

lemma prepare_reference_data_Inr:
  assumes "prepare_reference_data data s
      = (Inr (country_map, genre_map, actor_map, language_map), s')"
  shows "dom country_map = country ` set data
    \<and> dom genre_map = (\<Union>row\<in>set data. set (tokens (genre row)))
    \<and> dom actor_map = (\<Union>row\<in>set data. set (tokens (crew row)))
    \<and> dom language_map = (\<Union>row\<in>set data. set (tokens (orig_lang row)))"
proof -
  let ?countries = "drop_duplicates id [] (map country data)"
  let ?genres = "remdups [str_strip genre_name. g \<leftarrow> map genre data,
      genre_name \<leftarrow> str_split CHR '','' g, str_strip genre_name \<noteq> []]"
  let ?actors = "remdups [str_strip actor_name. c \<leftarrow> map crew data,
      actor_name \<leftarrow> str_split CHR '','' c, str_strip actor_name \<noteq> []]"
  let ?languages = "remdups [str_strip lang_name. l \<leftarrow> map orig_lang data,
      lang_name \<leftarrow> str_split CHR '','' l, str_strip lang_name \<noteq> []]"
  from assms [unfolded prepare_reference_data_def Let_def] obtain cm s1 where
    c: "get_or_create_bulk CountryModel ?countries s = (Inr cm, s1)"
    and r1: "bind_io (get_or_create_bulk GenreModel ?genres) (\<lambda>genre_map.
         bind_io (get_or_create_bulk ActorModel ?actors) (\<lambda>actor_map.
         bind_io (get_or_create_bulk LanguageModel ?languages) (\<lambda>language_map.
         return_io (cm, genre_map, actor_map, language_map)))) s1
      = (Inr (country_map, genre_map, actor_map, language_map), s')"
    by (rule bind_io_InrE)
  from r1 obtain gm s2 where
    g: "get_or_create_bulk GenreModel ?genres s1 = (Inr gm, s2)"
    and r2: "bind_io (get_or_create_bulk ActorModel ?actors) (\<lambda>actor_map.
         bind_io (get_or_create_bulk LanguageModel ?languages) (\<lambda>language_map.
         return_io (cm, gm, actor_map, language_map))) s2
      = (Inr (country_map, genre_map, actor_map, language_map), s')"
    by (rule bind_io_InrE)
  from r2 obtain am s3 where
    a: "get_or_create_bulk ActorModel ?actors s2 = (Inr am, s3)"
    and r3: "bind_io (get_or_create_bulk LanguageModel ?languages) (\<lambda>language_map.
         return_io (cm, gm, am, language_map)) s3
      = (Inr (country_map, genre_map, actor_map, language_map), s')"
    by (rule bind_io_InrE)
  from r3 obtain lm s4 where
    l: "get_or_create_bulk LanguageModel ?languages s3 = (Inr lm, s4)"
    and r4: "return_io (cm, gm, am, lm) s4
      = (Inr (country_map, genre_map, actor_map, language_map), s')"
    by (rule bind_io_InrE)
  from r4 have same: "cm = country_map" "gm = genre_map" "am = actor_map" "lm = language_map"
    by (simp_all add: return_io_def)
  have "dom country_map = country ` set data"
    using get_or_create_bulk_covers_items_dom [OF c] by (simp add: set_drop_duplicates same)
  moreover have "dom genre_map = (\<Union>row\<in>set data. set (tokens (genre row)))"
    using get_or_create_bulk_covers_items_dom [OF g] unfolding same
    by (simp only: set_remdups set_candidates)
  moreover have "dom actor_map = (\<Union>row\<in>set data. set (tokens (crew row)))"
    using get_or_create_bulk_covers_items_dom [OF a] unfolding same
    by (simp only: set_remdups set_candidates)
  moreover have "dom language_map = (\<Union>row\<in>set data. set (tokens (orig_lang row)))"
    using get_or_create_bulk_covers_items_dom [OF l] unfolding same
    by (simp only: set_remdups set_candidates)
  ultimately show ?thesis
    by blast
qed

text \<open>
  Claim C10. The keys of the maps that \<open>prepare_reference_data\<close> returns are exactly the
  countries of the rows and the non-empty trimmed tokens of their genre, crew and
  language fields, the very tokens association building looks up. So building the
  movie records and the associations raises no \<open>KeyError\<close>, given a movie identifier
  for every row.
\<close>

theorem reference_data_covers_lookups:
  assumes "prepare_reference_data data s
      = (Inr (country_map, genre_map, actor_map, language_map), s')"
    and "length data \<le> length movie_ids"
  shows "dom country_map = country ` set data
    \<and> dom genre_map = (\<Union>row\<in>set data. set (tokens (genre row)))
    \<and> dom actor_map = (\<Union>row\<in>set data. set (tokens (crew row)))
    \<and> dom language_map = (\<Union>row\<in>set data. set (tokens (orig_lang row)))
    \<and> (\<exists>movies_data. prepare_movies_data data country_map = Inr movies_data)
    \<and> (\<exists>associations.
          prepare_associations data movie_ids genre_map actor_map language_map = Inr associations)"
proof -
  note d = prepare_reference_data_Inr [OF assms(1)]
  have c: "dom country_map = country ` set data"
    by (rule d [THEN conjunct1])
  have g: "dom genre_map = (\<Union>row\<in>set data. set (tokens (genre row)))"
    by (rule d [THEN conjunct2, THEN conjunct1])
  have a: "dom actor_map = (\<Union>row\<in>set data. set (tokens (crew row)))"
    by (rule d [THEN conjunct2, THEN conjunct2, THEN conjunct1])
  have l: "dom language_map = (\<Union>row\<in>set data. set (tokens (orig_lang row)))"
    by (rule d [THEN conjunct2, THEN conjunct2, THEN conjunct2])
  have "\<forall>row\<in>set data. country row \<in> dom country_map"
    unfolding c by blast
  then have movies: "\<exists>movies_data. prepare_movies_data data country_map = Inr movies_data"
    by (rule prepare_movies_data_total)
  have len: "0 + length data \<le> length movie_ids"
    using assms(2) by simp
  have "\<forall>row\<in>set data. set (tokens (genre row)) \<subseteq> dom genre_map
        \<and> set (tokens (crew row)) \<subseteq> dom actor_map
        \<and> set (tokens (orig_lang row)) \<subseteq> dom language_map"
    unfolding g a l by blast
  with len have assoc: "\<exists>associations.
      prepare_associations data movie_ids genre_map actor_map language_map = Inr associations"
    unfolding prepare_associations_def by (rule prepare_associations_from_total)
  show ?thesis
    by (intro conjI c g a l movies assoc)
qed

theorem reference_data_covers_lookups_witness:
  "\<not> isl (fst (prepare_reference_data example_data (new_session empty_store [])))
    \<and> length example_data \<le> length [1, 2 :: nat]
    \<and> \<not> isl (prepare_movies_data example_data
          (fst (projr (fst (prepare_reference_data example_data (new_session empty_store []))))))
    \<and> dom (fst (projr (fst (prepare_reference_data example_data (new_session empty_store [])))))
        = country ` set example_data"
proof -
  let ?run = "prepare_reference_data example_data (new_session empty_store [])"
  have ok: "\<not> isl (fst ?run)"
    by code_simp
  have len: "length example_data \<le> length [1, 2 :: nat]"
    by code_simp
  from ok have "?run = (Inr (fst (projr (fst ?run)), fst (snd (projr (fst ?run))),
      fst (snd (snd (projr (fst ?run)))), snd (snd (snd (projr (fst ?run))))), snd ?run)"
    by (simp add: prod_eq_iff)
  from reference_data_covers_lookups [OF this len] ok len show ?thesis
    by auto
qed

subsection \<open>The population check\<close>

text \<open>
  Claim C8. When the store holds a movie, \<open>main\<close> issues no insert statement, commits
  nothing and leaves the store as it was, whatever the failure schedule.
\<close>

theorem main_skips_when_populated:
  assumes "movies store \<noteq> []"
  shows "committed (snd (main pd UserGroupEnum csv store fs)) = store
    \<and> txn (snd (main pd UserGroupEnum csv store fs)) = None
    \<and> writes (snd (main pd UserGroupEnum csv store fs)) = 0"
  using assms
  by (simp add: main_def Let_def is_db_populated_def bind_io_def execute_select_def
      return_io_def close_def view_def new_session_def)

theorem main_skips_when_populated_witness:
  "movies populated_store \<noteq> []
    \<and> committed (snd (main example_pandas [''user'', ''admin''] example_csv populated_store []))
        = populated_store
    \<and> writes (snd (main example_pandas [''user'', ''admin''] example_csv populated_store [])) = 0"
proof -
  have h: "movies populated_store \<noteq> []"
    by (simp add: populated_store_def)
  show ?thesis
    using main_skips_when_populated [OF h, where pd = example_pandas
        and UserGroupEnum = "[''user'', ''admin'']" and csv = example_csv and fs = "[]"] h
    by simp
qed

end
